theory Spec2Isabelle
  imports Complex_Main "HOL-Library.Log_Nat"
begin

section \<open>min-s3-viewer: path parsing, byte formatting, listing pages and request routing\<close>

text \<open>
  A shallow embedding of \<^verbatim>\<open>server.js\<close>. JavaScript strings are modelled as
  \<^typ>\<open>string\<close>; request paths, bucket names and keys are taken as the characters
  that arrive in the URL path. \<^verbatim>\<open>null\<close> and \<^verbatim>\<open>undefined\<close> are \<^term>\<open>None\<close>.
\<close>

subsection \<open>String primitives of the JavaScript runtime\<close>

text \<open>\<^verbatim>\<open>s.split(sep)\<close> for a one-character separator: the pieces between the
  separators, empty pieces included; the empty string splits into one empty piece.\<close>

fun js_split :: "char \<Rightarrow> string \<Rightarrow> string list" where
  "js_split sep [] = [[]]"
| "js_split sep (c # cs) =
     (if c = sep then [] # js_split sep cs
      else (c # hd (js_split sep cs)) # tl (js_split sep cs))"

text \<open>\<^verbatim>\<open>xs.join(sep)\<close>.\<close>

fun js_join :: "string \<Rightarrow> string list \<Rightarrow> string" where
  "js_join sep [] = []"
| "js_join sep [x] = x"
| "js_join sep (x # y # ys) = x @ sep @ js_join sep (y # ys)"

text \<open>\<^verbatim>\<open>Boolean(s)\<close> on a string: only the empty string is falsy.\<close>

definition Boolean :: "string \<Rightarrow> bool" where
  "Boolean s = (s \<noteq> [])"

text \<open>Truthiness of a value that is a string, \<^verbatim>\<open>null\<close> or \<^verbatim>\<open>undefined\<close>.\<close>

fun truthy :: "string option \<Rightarrow> bool" where
  "truthy None = False"
| "truthy (Some s) = Boolean s"

text \<open>\<^verbatim>\<open>s.endsWith(t)\<close>.\<close>

definition endsWith :: "string \<Rightarrow> string \<Rightarrow> bool" where
  "endsWith s t = (length t \<le> length s \<and> drop (length s - length t) s = t)"

text \<open>\<^verbatim>\<open>s.replace(/^\/+/, "")\<close>: the leading run of slashes is removed.\<close>

definition strip_leading_slashes :: "string \<Rightarrow> string" where
  "strip_leading_slashes s = dropWhile (\<lambda>c. c = CHR ''/'') s"

text \<open>\<^verbatim>\<open>s.replace(/\/$/, "")\<close>: one trailing slash is removed, if there is one.\<close>

definition strip_trailing_slash :: "string \<Rightarrow> string" where
  "strip_trailing_slash s = (if endsWith s ''/'' then butlast s else s)"

subsection \<open>The path parser\<close>

text \<open>The object \<^verbatim>\<open>{ bucket, key }\<close> is the pair of its two fields, bucket first.\<close>

type_synonym parsed = "string option \<times> string option"

definition parseBucketAndKey :: "string \<Rightarrow> parsed" where
  "parseBucketAndKey reqPath =
     (let p = strip_leading_slashes reqPath;
          parts = filter Boolean (js_split (CHR ''/'') p)
      in if length parts < 1 then (None, None)
         else (Some (parts ! 0), Some (js_join ''/'' (drop 1 parts))))"

text \<open>
  The contract in the specification's words, stated independently of the runtime's
  \<^verbatim>\<open>split\<close> and \<^verbatim>\<open>filter\<close>: the segments of a path are its maximal non-empty
  runs of characters other than the slash, read left to right. The first argument is the
  run collected so far.
\<close>

fun segments_from :: "string \<Rightarrow> string \<Rightarrow> string list" where
  "segments_from run [] = (if run = [] then [] else [run])"
| "segments_from run (c # cs) =
     (if c = CHR ''/'' then (if run = [] then segments_from [] cs else run # segments_from [] cs)
      else segments_from (run @ [c]) cs)"

definition segments :: "string \<Rightarrow> string list" where
  "segments p = segments_from [] p"

definition spec_parse :: "string \<Rightarrow> parsed" where
  "spec_parse p =
     (case segments p of
        [] \<Rightarrow> (None, None)
      | b # rest \<Rightarrow> (Some b, Some (js_join ''/'' rest)))"

subsection \<open>The byte formatter\<close>

text \<open>
  Object sizes are non-negative integers, so the argument is a \<^typ>\<open>nat\<close>. JavaScript
  Number arithmetic is read as exact arithmetic on real numbers. For sizes below
  \<open>1024^4\<close>, the range of the four units, the double-precision computation gives the
  same unit index and the same printed number. Above that range the two can differ: the
  quotient of the two double logarithms rounds up to the next integer for the few sizes
  just below a power of 1024 (at \<open>2^50 - 1\<close> the code has index 5 and prints
  \<open>1 undefined\<close>, the exact floor is 4); in both readings the index is at least 4
  there and the unit is \<^verbatim>\<open>undefined\<close>.
\<close>

text \<open>\<^verbatim>\<open>Math.floor(Math.log(bytes) / Math.log(k))\<close> for \<open>bytes > 0\<close>: the floor of
  the logarithm to base \<open>k\<close>, computed by \<^const>\<open>floorlog\<close>, which is one more than
  that floor (lemma \<open>floor_log_ln\<close> below relates it to \<^const>\<open>ln\<close>).\<close>

definition floor_log :: "nat \<Rightarrow> nat \<Rightarrow> nat" where
  "floor_log bytes k = floorlog k bytes - 1"

text \<open>\<^verbatim>\<open>Math.round\<close>: the nearest integer, a tie going up.\<close>

definition Math_round :: "real \<Rightarrow> int" where
  "Math_round x = \<lfloor>x + 1 / 2\<rfloor>"

text \<open>Decimal digits of a natural number.\<close>

definition digit :: "nat \<Rightarrow> char" where
  "digit d = ''0123456789'' ! d"

fun show_nat :: "nat \<Rightarrow> string" where
  "show_nat n = (if n < 10 then [digit n] else show_nat (n div 10) @ [digit (n mod 10)])"

declare show_nat.simps [simp del]

text \<open>
  Number-to-string conversion on the values the formatter builds, the non-negative
  multiples of \<open>1/100\<close>: the shortest decimal, that is the integer part followed by at
  most two decimals with trailing zeros dropped.
\<close>

definition number_to_string :: "real \<Rightarrow> string" where
  "number_to_string q =
     (let h = nat \<lfloor>q * 100\<rfloor>; f = h mod 100
      in show_nat (h div 100) @
         (if f = 0 then []
          else if f mod 10 = 0 then [CHR ''.'', digit (f div 10)]
          else [CHR ''.'', digit (f div 10), digit (f mod 10)]))"

text \<open>\<^verbatim>\<open>sizes[i]\<close> inside a string concatenation: an index past the end of the array
  yields \<^verbatim>\<open>undefined\<close>, which concatenates as the text \<^verbatim>\<open>undefined\<close>.\<close>

definition index_to_string :: "string list \<Rightarrow> nat \<Rightarrow> string" where
  "index_to_string xs i = (if i < length xs then xs ! i else ''undefined'')"

definition formatBytes :: "nat \<Rightarrow> string" where
  "formatBytes bytes =
     (if bytes = 0 then ''0 B''
      else let k = 1024;
               sizes = [''B'', ''KB'', ''MB'', ''GB''];
               i = floor_log bytes k
           in number_to_string (of_int (Math_round (real bytes / real (k ^ i) * 100)) / 100)
              @ '' '' @ index_to_string sizes i)"

subsection \<open>The listing renderer\<close>

text \<open>
  Entries of a listing as the storage client returns them. The pictographs of the pages
  are given by their UTF-8 encoding, the form in which the page is sent.
\<close>

record common_prefix =
  Prefix :: string

record s3_object =
  Key :: string
  Size :: nat

definition folder_icon :: string where
  "folder_icon = [CHR 0xF0, CHR 0x9F, CHR 0x93, CHR 0x81]"

definition file_icon :: string where
  "file_icon = [CHR 0xF0, CHR 0x9F, CHR 0x93, CHR 0x84]"

definition bucket_icon :: string where
  "bucket_icon = [CHR 0xF0, CHR 0x9F, CHR 0x93, CHR 0xA6]"

text \<open>The fixed text of a template literal, given line by line.\<close>

definition template_lines :: "string list \<Rightarrow> string" where
  "template_lines ls = js_join ''\<newline>'' ls"

definition index_page_1 :: string where
  "index_page_1 = template_lines
     [''<!DOCTYPE html>'',
      ''<html>'',
      ''<head>'',
      ''  <meta charset=\"UTF-8\">'',
      ''  <meta name=\"viewport\" content=\"width=device-width, initial-scale=1.0\">'',
      ''  <title>Index of '']"

definition index_page_2 :: string where
  "index_page_2 = template_lines
     [''</title>'',
      ''  <style>'',
      ''    body { font-family: system-ui, -apple-system, sans-serif; margin: 2rem; }'',
      ''    h1 { font-size: 1.5rem; margin-bottom: 0.5rem; }'',
      ''    .breadcrumbs { color: #666; margin-bottom: 1.5rem; }'',
      ''    .breadcrumbs a { color: #0066cc; text-decoration: none; }'',
      ''    .breadcrumbs a:hover { text-decoration: underline; }'',
      ''    table { border-collapse: collapse; width: 100%; max-width: 900px; }'',
      ''    th { text-align: left; padding: 0.5rem; border-bottom: 2px solid #ddd; background: #f5f5f5; }'',
      ''    td { padding: 0.5rem; border-bottom: 1px solid #eee; }'',
      ''    td:first-child { width: 70%; }'',
      ''    td:last-child { text-align: right; color: #666; }'',
      ''    a { color: #0066cc; text-decoration: none; }'',
      ''    a:hover { text-decoration: underline; }'',
      ''  </style>'',
      ''</head>'',
      ''<body>'',
      ''  <h1>Index of '']"

definition index_page_3 :: string where
  "index_page_3 = template_lines
     [''</h1>'',
      ''  <div class=\"breadcrumbs\">'']"

definition index_page_4 :: string where
  "index_page_4 = template_lines
     [''</div>'',
      ''  <table>'',
      ''    <thead>'',
      ''      <tr><th>Name</th><th>Size</th></tr>'',
      ''    </thead>'',
      ''    <tbody>'',
      ''      '']"

definition index_page_5 :: string where
  "index_page_5 = template_lines
     [[],
      ''    </tbody>'',
      ''  </table>'',
      ''</body>'',
      ''</html>'']"

definition buckets_page_1 :: string where
  "buckets_page_1 = template_lines
     [''<!DOCTYPE html>'',
      ''<html>'',
      ''<head>'',
      ''  <meta charset=\"UTF-8\">'',
      ''  <meta name=\"viewport\" content=\"width=device-width, initial-scale=1.0\">'',
      ''  <title>S3 Buckets</title>'',
      ''  <style>'',
      ''    body { font-family: system-ui, -apple-system, sans-serif; margin: 2rem; }'',
      ''    h1 { font-size: 1.5rem; margin-bottom: 1.5rem; }'',
      ''    table { border-collapse: collapse; width: 100%; max-width: 900px; }'',
      ''    th { text-align: left; padding: 0.5rem; border-bottom: 2px solid #ddd; background: #f5f5f5; }'',
      ''    td { padding: 0.5rem; border-bottom: 1px solid #eee; }'',
      ''    td:first-child { width: 70%; }'',
      ''    td:last-child { text-align: right; color: #666; }'',
      ''    a { color: #0066cc; text-decoration: none; }'',
      ''    a:hover { text-decoration: underline; }'',
      ''  </style>'',
      ''</head>'',
      ''<body>'',
      ''  <h1>S3 Buckets</h1>'',
      ''  <table>'',
      ''    <thead>'',
      ''      <tr><th>Name</th><th>Created</th></tr>'',
      ''    </thead>'',
      ''    <tbody>'',
      ''      '']"

definition buckets_page_2 :: string where
  "buckets_page_2 = template_lines
     [[],
      ''    </tbody>'',
      ''  </table>'',
      ''</body>'',
      ''</html>'']"

text \<open>\<^verbatim>\<open>a || b\<close> on strings.\<close>

definition or_string :: "string \<Rightarrow> string \<Rightarrow> string" where
  "or_string a b = (if Boolean a then a else b)"

text \<open>The loop over \<^verbatim>\<open>pathParts\<close>: \<^verbatim>\<open>currentPath\<close> grows by one segment per link.\<close>

fun breadcrumb_links :: "string \<Rightarrow> string list \<Rightarrow> string list" where
  "breadcrumb_links currentPath [] = []"
| "breadcrumb_links currentPath (part # rest) =
     (let currentPath' = currentPath @ ''/'' @ part
      in (''<a href=\"'' @ currentPath' @ ''\">'' @ part @ ''</a>'')
         # breadcrumb_links currentPath' rest)"

definition parent_row :: "string \<Rightarrow> string \<Rightarrow> string" where
  "parent_row bucket reqPath =
     (let parentPath =
            or_string (js_join ''/'' (butlast (js_split (CHR ''/'') (strip_trailing_slash reqPath))))
                      (''/'' @ bucket)
      in ''<tr><td><a href=\"'' @ parentPath @ ''\">'' @ folder_icon @ '' ..</a></td><td>-</td></tr>'')"

definition folder_row :: "string \<Rightarrow> string \<Rightarrow> common_prefix \<Rightarrow> string" where
  "folder_row bucket prefix folder =
     (let folderName = strip_trailing_slash (drop (length prefix) (Prefix folder));
          folderPath = ''/'' @ bucket @ ''/'' @ Prefix folder
      in ''<tr><td><a href=\"'' @ folderPath @ ''\">'' @ folder_icon @ '' '' @ folderName
         @ ''/</a></td><td>-</td></tr>'')"

text \<open>The loop over \<^verbatim>\<open>files\<close>; an entry whose name after the prefix is empty is skipped.\<close>

fun file_rows :: "string \<Rightarrow> string \<Rightarrow> s3_object list \<Rightarrow> string list" where
  "file_rows bucket prefix [] = []"
| "file_rows bucket prefix (file # rest) =
     (let fileName = drop (length prefix) (Key file)
      in if \<not> Boolean fileName then file_rows bucket prefix rest
         else let filePath = ''/'' @ bucket @ ''/'' @ Key file;
                  size = formatBytes (Size file)
              in (''<tr><td><a href=\"'' @ filePath @ ''\">'' @ file_icon @ '' '' @ fileName
                  @ ''</a></td><td>'' @ size @ ''</td></tr>'')
                 # file_rows bucket prefix rest)"

definition generateIndexHtml ::
  "string \<Rightarrow> string \<Rightarrow> common_prefix list \<Rightarrow> s3_object list \<Rightarrow> string \<Rightarrow> string" where
  "generateIndexHtml bucket prefix folders files reqPath =
     (let pathParts = (if Boolean prefix then filter Boolean (js_split (CHR ''/'') prefix) else []);
          currentPath = ''/'' @ bucket;
          breadcrumbs = (''<a href=\"'' @ currentPath @ ''\">'' @ bucket @ ''</a>'')
                        # breadcrumb_links currentPath pathParts;
          rows = (if Boolean prefix then [parent_row bucket reqPath] else [])
                 @ map (folder_row bucket prefix) folders
                 @ file_rows bucket prefix files
      in index_page_1 @ reqPath @ index_page_2 @ reqPath @ index_page_3
         @ js_join '' / '' breadcrumbs @ index_page_4
         @ js_join ''\<newline>      '' rows @ index_page_5)"

subsection \<open>The storage service and the response\<close>

text \<open>
  What a rejected call throws: \<^verbatim>\<open>err.$metadata.httpStatusCode\<close> and \<^verbatim>\<open>err.name\<close>,
  each possibly missing, and the rest of the error as an opaque detail.
\<close>

record s3_error =
  httpStatusCode :: "nat option"
  name :: "string option"
  detail :: string

record head_output =
  ContentType :: "string option"
  CacheControl :: "string option"
  ETag :: "string option"

record list_output =
  CommonPrefixes :: "common_prefix list option"
  Contents :: "s3_object list option"

text \<open>A bucket entry; \<open>CreationDate\<close> holds the date's \<^verbatim>\<open>toISOString()\<close> when the
  date is there.\<close>

record bucket_entry =
  Name :: string
  CreationDate :: "string option"

record buckets_output =
  Buckets :: "bucket_entry list option"

text \<open>
  The world outside the handlers: the answer of the storage service to each command
  (\<^term>\<open>Inl\<close> is a rejected promise) and the extension table of \<^verbatim>\<open>mime.lookup\<close>, which
  answers \<^verbatim>\<open>false\<close> (\<^term>\<open>None\<close>) for an unknown extension.
\<close>

record world =
  ListBucketsCommand :: "s3_error + buckets_output"
  ListObjectsV2Command :: "string \<Rightarrow> string \<Rightarrow> s3_error + list_output"
  HeadObjectCommand :: "string \<Rightarrow> string \<Rightarrow> s3_error + head_output"
  GetObjectCommand :: "string \<Rightarrow> string \<Rightarrow> s3_error + string"
  mime_lookup :: "string \<Rightarrow> string option"

datatype s3_call =
  ListBuckets
| ListObjectsV2 string string
| HeadObject string string
| GetObject string string

text \<open>
  What a handler does to its surroundings: the response (\<open>statusCode\<close>, the headers it sets
  by name, the body it sends or pipes), the errors written by \<^verbatim>\<open>console.error\<close> and the
  commands sent to the storage service, both oldest first.
\<close>

record effects =
  statusCode :: nat
  headers :: "string \<rightharpoonup> string"
  sent :: "string option"
  console :: "s3_error list"
  calls :: "s3_call list"

definition fresh :: effects where
  "fresh = \<lparr>statusCode = 200, headers = Map.empty, sent = None, console = [], calls = []\<rparr>"

definition res_status :: "nat \<Rightarrow> effects \<Rightarrow> effects" where
  "res_status code e = e\<lparr>statusCode := code\<rparr>"

definition res_setHeader :: "string \<Rightarrow> string \<Rightarrow> effects \<Rightarrow> effects" where
  "res_setHeader h v e = e\<lparr>headers := (headers e)(h \<mapsto> v)\<rparr>"

definition res_send :: "string \<Rightarrow> effects \<Rightarrow> effects" where
  "res_send b e = e\<lparr>sent := Some b\<rparr>"

definition console_error :: "s3_error \<Rightarrow> effects \<Rightarrow> effects" where
  "console_error err e = e\<lparr>console := console e @ [err]\<rparr>"

definition s3_send :: "s3_call \<Rightarrow> effects \<Rightarrow> effects" where
  "s3_send c e = e\<lparr>calls := calls e @ [c]\<rparr>"

text \<open>A step that may throw: the error together with the effects up to the throw, or
  the value with the effects so far.\<close>

type_synonym 'a attempt = "(s3_error \<times> effects) + ('a \<times> effects)"

text \<open>\<^verbatim>\<open>x || []\<close> on a list that may be \<^verbatim>\<open>undefined\<close>.\<close>

definition or_nil :: "'a list option \<Rightarrow> 'a list" where
  "or_nil xs = (case xs of None \<Rightarrow> [] | Some ys \<Rightarrow> ys)"

text \<open>\<^verbatim>\<open>a || b\<close> with \<open>a\<close> a string, \<^verbatim>\<open>null\<close>, \<^verbatim>\<open>undefined\<close> or \<^verbatim>\<open>false\<close>, and \<open>b\<close>
  a string.\<close>

fun or_else :: "string option \<Rightarrow> string \<Rightarrow> string" where
  "or_else None b = b"
| "or_else (Some a) b = or_string a b"

definition listS3Objects ::
  "world \<Rightarrow> string \<Rightarrow> string \<Rightarrow> effects \<Rightarrow> (common_prefix list \<times> s3_object list) attempt" where
  "listS3Objects w bucket prefix e =
     (let e1 = s3_send (ListObjectsV2 bucket prefix) e
      in case ListObjectsV2Command w bucket prefix of
           Inl err \<Rightarrow> Inl (err, e1)
         | Inr result \<Rightarrow> Inr ((or_nil (CommonPrefixes result), or_nil (Contents result)), e1))"

subsection \<open>The root route\<close>

definition bucket_row :: "bucket_entry \<Rightarrow> string" where
  "bucket_row b =
     (let bucketPath = ''/'' @ Name b;
          creationDate = (case CreationDate b of
                            Some date \<Rightarrow> hd (js_split (CHR ''T'') date)
                          | None \<Rightarrow> ''-'')
      in ''<tr><td><a href=\"'' @ bucketPath @ ''\">'' @ bucket_icon @ '' '' @ Name b
         @ ''</a></td><td>'' @ creationDate @ ''</td></tr>'')"

definition get_root :: "world \<Rightarrow> effects" where
  "get_root w =
     (let e1 = s3_send ListBuckets fresh
      in case ListBucketsCommand w of
           Inl err \<Rightarrow> res_send ''Error listing buckets'' (res_status 500 (console_error err e1))
         | Inr result \<Rightarrow>
             let buckets = or_nil (Buckets result);
                 rows = js_join ''\<newline>      '' (map bucket_row buckets);
                 html = buckets_page_1 @ rows @ buckets_page_2
             in res_send html (res_setHeader ''Content-Type'' ''text/html; charset=utf-8'' e1))"

subsection \<open>The catch-all route\<close>

text \<open>The test of the inner \<^verbatim>\<open>catch\<close>: the error counts as not-found.\<close>

definition is_not_found :: "s3_error \<Rightarrow> bool" where
  "is_not_found err =
     (httpStatusCode err = Some 404 \<or> name err = Some ''NotFound'' \<or> name err = Some ''NoSuchKey'')"

text \<open>The inner \<^verbatim>\<open>try\<close> block: the metadata check, the headers, the byte fetch.\<close>

definition fetch_file :: "world \<Rightarrow> string \<Rightarrow> string \<Rightarrow> effects \<Rightarrow> unit attempt" where
  "fetch_file w bucket key e =
     (let e1 = s3_send (HeadObject bucket key) e
      in case HeadObjectCommand w bucket key of
           Inl err \<Rightarrow> Inl (err, e1)
         | Inr head \<Rightarrow>
             let contentType =
                   or_else (ContentType head) (or_else (mime_lookup w key) ''application/octet-stream'');
                 e2 = res_setHeader ''Content-Type'' contentType e1;
                 e3 = (if truthy (CacheControl head)
                       then res_setHeader ''Cache-Control'' (or_else (CacheControl head) []) e2 else e2);
                 e4 = (if truthy (ETag head)
                       then res_setHeader ''ETag'' (or_else (ETag head) []) e3 else e3);
                 e5 = s3_send (GetObject bucket key) e4
             in case GetObjectCommand w bucket key of
                  Inl err \<Rightarrow> Inl (err, e5)
                | Inr bytes \<Rightarrow> Inr ((), res_send bytes e5))"

text \<open>The inner \<^verbatim>\<open>catch\<close> block on a not-found error.\<close>

definition try_as_directory :: "world \<Rightarrow> string \<Rightarrow> string \<Rightarrow> string \<Rightarrow> effects \<Rightarrow> unit attempt" where
  "try_as_directory w bucket key reqPath e =
     (let prefix = (if endsWith key ''/'' then key else key @ ''/'')
      in case listS3Objects w bucket prefix e of
           Inl thrown \<Rightarrow> Inl thrown
         | Inr ((folders, files), e1) \<Rightarrow>
             if length folders > 0 \<or> length files > 0
             then let html = generateIndexHtml bucket prefix folders files
                               (if endsWith reqPath ''/'' then reqPath else reqPath @ ''/'')
                  in Inr ((), res_send html
                                (res_setHeader ''Content-Type'' ''text/html; charset=utf-8'' e1))
             else Inr ((), res_send ''Not found'' (res_status 404 e1)))"

text \<open>The outer \<^verbatim>\<open>try\<close> block. After the guard on the bucket, \<open>bucket\<close> is a non-empty
  string; \<open>key\<close> is used as a string only where it is truthy.\<close>

definition serve :: "world \<Rightarrow> string \<Rightarrow> effects \<Rightarrow> unit attempt" where
  "serve w reqPath e =
     (case parseBucketAndKey reqPath of (bucket, key) \<Rightarrow>
        if \<not> truthy bucket
        then Inr ((), res_send ''Bad path. Use /<bucket>/<key...>'' (res_status 400 e))
        else if \<not> truthy key \<or> endsWith (or_else key []) ''/''
        then let prefix = or_else key []
             in case listS3Objects w (or_else bucket []) prefix e of
                  Inl thrown \<Rightarrow> Inl thrown
                | Inr ((folders, files), e1) \<Rightarrow>
                    let html = generateIndexHtml (or_else bucket []) prefix folders files reqPath
                    in Inr ((), res_send html
                                  (res_setHeader ''Content-Type'' ''text/html; charset=utf-8'' e1))
        else case fetch_file w (or_else bucket []) (or_else key []) e of
               Inr ok \<Rightarrow> Inr ok
             | Inl (err, e1) \<Rightarrow>
                 if is_not_found err
                 then try_as_directory w (or_else bucket []) (or_else key []) reqPath e1
                 else Inl (err, e1))"

definition get_any :: "world \<Rightarrow> string \<Rightarrow> effects" where
  "get_any w reqPath =
     (case serve w reqPath fresh of
        Inr (u, e) \<Rightarrow> e
      | Inl (err, e) \<Rightarrow> res_send ''Error fetching from S3'' (res_status 500 (console_error err e)))"

subsection \<open>A sample world\<close>

text \<open>
  A bucket \<open>b\<close> holding the object \<open>dir/real-file.txt\<close>, stored without a content
  type, and a key \<open>secret\<close> whose metadata may not be read; every other key is absent.
\<close>

definition not_found :: s3_error where
  "not_found = \<lparr>httpStatusCode = Some 404, name = Some ''NotFound'', detail = ''UnknownError''\<rparr>"

definition access_denied :: s3_error where
  "access_denied = \<lparr>httpStatusCode = Some 403, name = Some ''AccessDenied'', detail = ''Access Denied''\<rparr>"

definition demo_world :: world where
  "demo_world =
     \<lparr>ListBucketsCommand =
        Inr \<lparr>Buckets = Some [\<lparr>Name = ''b'', CreationDate = Some ''2024-01-02T03:04:05.000Z''\<rparr>]\<rparr>,
      ListObjectsV2Command = (\<lambda>bucket prefix.
        if bucket \<noteq> ''b'' then Inl not_found
        else if prefix = [] then Inr \<lparr>CommonPrefixes = Some [\<lparr>Prefix = ''dir/''\<rparr>], Contents = None\<rparr>
        else if prefix = ''dir/''
        then Inr \<lparr>CommonPrefixes = None, Contents = Some [\<lparr>Key = ''dir/real-file.txt'', Size = 1536\<rparr>]\<rparr>
        else Inr \<lparr>CommonPrefixes = None, Contents = None\<rparr>),
      HeadObjectCommand = (\<lambda>bucket key.
        if bucket = ''b'' \<and> key = ''dir/real-file.txt''
        then Inr \<lparr>ContentType = None, CacheControl = Some ''max-age=60'', ETag = None\<rparr>
        else if bucket = ''b'' \<and> key = ''secret'' then Inl access_denied
        else Inl not_found),
      GetObjectCommand = (\<lambda>bucket key.
        if bucket = ''b'' \<and> key = ''dir/real-file.txt'' then Inr ''hello'' else Inl not_found),
      mime_lookup = (\<lambda>key. if endsWith key ''.txt'' then Some ''text/plain'' else None)\<rparr>"

text \<open>
  A world whose objects are archived: the metadata of every key can be read, and the
  fetch of its bytes is refused with status 403.
\<close>

definition invalid_object_state :: s3_error where
  "invalid_object_state =
     \<lparr>httpStatusCode = Some 403, name = Some ''InvalidObjectState'',
      detail = ''The operation is not valid for the object storage class''\<rparr>"

definition archive_world :: world where
  "archive_world =
     \<lparr>ListBucketsCommand = Inr \<lparr>Buckets = Some [\<lparr>Name = ''b'', CreationDate = None\<rparr>]\<rparr>,
      ListObjectsV2Command = (\<lambda>bucket prefix. Inr \<lparr>CommonPrefixes = None, Contents = None\<rparr>),
      HeadObjectCommand = (\<lambda>bucket key.
        Inr \<lparr>ContentType = Some ''application/zip'', CacheControl = None, ETag = Some ''e1''\<rparr>),
      GetObjectCommand = (\<lambda>bucket key. Inl invalid_object_state),
      mime_lookup = (\<lambda>key. None)\<rparr>"

section \<open>Properties of the path parser\<close>

subsection \<open>Splitting and joining\<close>

lemma js_split_not_Nil: "js_split sep s \<noteq> []"
  by (induction s) auto

lemma js_split_append: "js_split sep (a @ sep # b) = js_split sep a @ js_split sep b"
  by (induction a) (auto simp: js_split_not_Nil)

text \<open>An unfolding of \<open>js_split\<close> that evaluates the rest of the string once.\<close>

lemma js_split_Cons:
  "js_split sep (c # cs) =
     (case js_split sep cs of
        x # xs \<Rightarrow> if c = sep then [] # x # xs else (c # x) # xs)"
  using js_split_not_Nil [of sep cs] by (cases "js_split sep cs") simp_all

lemma js_split_no_sep: "sep \<notin> set w \<Longrightarrow> js_split sep w = [w]"
  by (induction w) auto

lemma js_split_pieces: "w \<in> set (js_split sep s) \<Longrightarrow> sep \<notin> set w"
proof (induction s arbitrary: w)
  case Nil
  then show ?case by simp
next
  case (Cons c cs)
  obtain x xs where sp: "js_split sep cs = x # xs"
    using js_split_not_Nil [of sep cs] by (cases "js_split sep cs") auto
  show ?case
  proof (cases "c = sep")
    case True
    with Cons show ?thesis by auto
  next
    case False
    with Cons.prems sp have "w = c # x \<or> w \<in> set xs" by auto
    then show ?thesis
      using Cons.IH sp False by auto
  qed
qed

subsection \<open>The segments of a path\<close>

lemma strip_leading_slashes_split:
  "filter Boolean (js_split (CHR ''/'') (strip_leading_slashes p))
     = filter Boolean (js_split (CHR ''/'') p)"
  by (induction p) (auto simp: strip_leading_slashes_def Boolean_def)

lemma segments_from_split:
  "CHR ''/'' \<notin> set run \<Longrightarrow>
     segments_from run p = filter Boolean (js_split (CHR ''/'') (run @ p))"
proof (induction run p rule: segments_from.induct)
  case (1 run)
  then show ?case by (simp add: js_split_no_sep Boolean_def)
next
  case (2 run c cs)
  show ?case
  proof (cases "c = CHR ''/''")
    case True
    have "filter Boolean (js_split (CHR ''/'') run) = (if run = [] then [] else [run])"
      using "2.prems" by (simp add: js_split_no_sep Boolean_def)
    then show ?thesis
      using True 2 by (simp add: js_split_append)
  next
    case False
    then show ?thesis using 2 by simp
  qed
qed

lemma segments_split: "segments p = filter Boolean (js_split (CHR ''/'') p)"
  by (simp add: segments_def segments_from_split)

lemma segments_append: "segments (a @ CHR ''/'' # b) = segments a @ segments b"
  by (simp add: segments_split js_split_append)

lemma segments_Nil: "segments [] = []"
  by (simp add: segments_def)

lemma segments_slash: "segments (CHR ''/'' # p) = segments p"
  using segments_append [of "[]" p] by (simp add: segments_Nil)

lemma segments_leading: "segments (replicate n (CHR ''/'') @ p) = segments p"
  by (induction n) (simp_all add: segments_slash)

lemma segments_slashes: "segments (replicate n (CHR ''/'')) = []"
  using segments_leading [of n "[]"] by (simp add: segments_Nil)

lemma segments_trailing: "segments (p @ replicate n (CHR ''/'')) = segments p"
proof (cases n)
  case 0
  then show ?thesis by simp
next
  case (Suc m)
  then show ?thesis
    by (simp add: segments_append segments_slashes)
qed

lemma segments_nonempty: "s \<in> set (segments p) \<Longrightarrow> s \<noteq> []"
  by (simp add: segments_split Boolean_def)

lemma segments_slash_free: "s \<in> set (segments p) \<Longrightarrow> CHR ''/'' \<notin> set s"
  by (auto simp: segments_split dest: js_split_pieces)

lemma segments_single: "s \<noteq> [] \<Longrightarrow> CHR ''/'' \<notin> set s \<Longrightarrow> segments s = [s]"
  by (simp add: segments_split js_split_no_sep Boolean_def)

lemma segments_join:
  "\<forall>s\<in>set segs. s \<noteq> [] \<and> CHR ''/'' \<notin> set s \<Longrightarrow> segments (js_join ''/'' segs) = segs"
proof (induction "''/''" segs rule: js_join.induct)
  case 1
  then show ?case by (simp add: segments_Nil)
next
  case (2 x)
  then show ?case by (simp add: segments_single)
next
  case (3 x y ys)
  then show ?case by (simp add: segments_append segments_single)
qed

lemma parse_segments:
  "parseBucketAndKey p =
     (case segments p of [] \<Rightarrow> (None, None) | b # rest \<Rightarrow> (Some b, Some (js_join ''/'' rest)))"
proof -
  have "filter Boolean (js_split (CHR ''/'') (strip_leading_slashes p)) = segments p"
    by (simp add: strip_leading_slashes_split segments_split)
  then show ?thesis
    by (cases "segments p") (simp_all add: parseBucketAndKey_def)
qed

lemma parse_SomeD:
  assumes "parseBucketAndKey p = (Some b, Some k)"
  shows "\<exists>rest. segments p = b # rest \<and> k = js_join ''/'' rest"
  using assms by (cases "segments p") (simp_all add: parse_segments)

subsection \<open>The contract of the parser\<close>

text \<open>
  C3. For every raw path, \<open>parseBucketAndKey\<close> (leading slashes stripped, split on the
  slash, empty pieces discarded) returns what the contract says: with \<open>segments p\<close> the
  non-empty slash-free runs of the path, no bucket and no key when there is no segment,
  and otherwise the first segment as the bucket and the remaining segments joined by
  slashes as the key, which is the empty string when no segment remains. The function is
  a total function of the path alone: the equation holds for every string, with no side
  condition.
\<close>

theorem parseBucketAndKey_contract:
  "parseBucketAndKey p = spec_parse p
   \<and> segments p = filter (\<lambda>s. s \<noteq> []) (js_split (CHR ''/'') (dropWhile (\<lambda>c. c = CHR ''/'') p))
   \<and> (parseBucketAndKey p = (None, None)) = (segments p = [])
   \<and> (parseBucketAndKey p = (Some (hd (segments p)), Some [])) = (length (segments p) = 1)"
proof -
  have 1: "parseBucketAndKey p = spec_parse p"
    by (simp add: parse_segments spec_parse_def)
  have "segments p = filter Boolean (js_split (CHR ''/'') (strip_leading_slashes p))"
    by (simp add: strip_leading_slashes_split segments_split)
  then have 2: "segments p
      = filter (\<lambda>s. s \<noteq> []) (js_split (CHR ''/'') (dropWhile (\<lambda>c. c = CHR ''/'') p))"
    by (simp add: strip_leading_slashes_def Boolean_def [abs_def])
  have 3: "(parseBucketAndKey p = (None, None)) = (segments p = [])"
    by (cases "segments p") (simp_all add: parse_segments)
  have 4: "(parseBucketAndKey p = (Some (hd (segments p)), Some [])) = (length (segments p) = 1)"
  proof (cases "segments p")
    case Nil
    then show ?thesis by (simp add: parse_segments)
  next
    case (Cons b rest)
    have "(js_join ''/'' rest = []) = (rest = [])"
    proof (cases rest)
      case Nil
      then show ?thesis by simp
    next
      case (Cons r rs)
      have "r \<in> set (segments p)" using \<open>segments p = b # rest\<close> Cons by simp
      then have "r \<noteq> []" by (rule segments_nonempty)
      then show ?thesis using Cons by (cases rs) simp_all
    qed
    then show ?thesis using Cons by (simp add: parse_segments)
  qed
  from 1 2 3 4 show ?thesis by blast
qed

theorem parseBucketAndKey_contract_witness:
  "parseBucketAndKey ''/my-bucket/a/b/c.png'' = (Some ''my-bucket'', Some ''a/b/c.png'')
   \<and> parseBucketAndKey ''///'' = (None, None)
   \<and> parseBucketAndKey ''my-bucket//'' = (Some ''my-bucket'', Some [])"
  using parseBucketAndKey_contract [of "''/my-bucket/a/b/c.png''", THEN conjunct1]
    parseBucketAndKey_contract [of "''///''", THEN conjunct1]
    parseBucketAndKey_contract [of "''my-bucket//''", THEN conjunct1]
  by (simp add: spec_parse_def segments_def)

subsection \<open>Invariance under slash normalisation\<close>

text \<open>
  C7. The pair returned by \<open>parseBucketAndKey\<close> does not change when slashes are added
  or removed at the front of the path, at its end, or next to a slash already there; and
  parsing the normalised form \<open>/<bucket>/<key>\<close> of a successfully parsed pair gives
  that pair again.
\<close>

theorem parse_slash_invariant:
  "parseBucketAndKey (replicate n (CHR ''/'') @ p) = parseBucketAndKey p
   \<and> parseBucketAndKey (p @ replicate n (CHR ''/'')) = parseBucketAndKey p
   \<and> parseBucketAndKey (a @ CHR ''/'' # replicate n (CHR ''/'') @ c) = parseBucketAndKey (a @ CHR ''/'' # c)
   \<and> (parseBucketAndKey p = (Some b, Some k) \<longrightarrow>
        parseBucketAndKey (''/'' @ b @ ''/'' @ k) = (Some b, Some k))"
proof -
  have lead: "parseBucketAndKey (replicate n (CHR ''/'') @ p) = parseBucketAndKey p"
    by (simp add: parse_segments segments_leading)
  have trail: "parseBucketAndKey (p @ replicate n (CHR ''/'')) = parseBucketAndKey p"
    by (simp add: parse_segments segments_trailing)
  have "segments (a @ CHR ''/'' # replicate n (CHR ''/'') @ c) = segments (a @ CHR ''/'' # c)"
    by (simp add: segments_append segments_leading)
  then have dup: "parseBucketAndKey (a @ CHR ''/'' # replicate n (CHR ''/'') @ c)
      = parseBucketAndKey (a @ CHR ''/'' # c)"
    by (simp add: parse_segments)
  have idem: "parseBucketAndKey (''/'' @ b @ ''/'' @ k) = (Some b, Some k)"
    if parsed: "parseBucketAndKey p = (Some b, Some k)"
  proof -
    from parse_SomeD [OF parsed] obtain rest
      where segs: "segments p = b # rest" and k: "k = js_join ''/'' rest" by blast
    have b: "b \<noteq> []" "CHR ''/'' \<notin> set b"
      using segs segments_nonempty [of b p] segments_slash_free [of b p] by simp_all
    have "\<forall>s\<in>set rest. s \<noteq> [] \<and> CHR ''/'' \<notin> set s"
      using segs segments_nonempty [of _ p] segments_slash_free [of _ p] by simp
    then have "segments k = rest"
      unfolding k by (rule segments_join)
    then have "segments (''/'' @ b @ ''/'' @ k) = b # rest"
      using b by (simp add: segments_slash segments_append segments_single)
    then show ?thesis
      by (simp add: parse_segments k)
  qed
  from lead trail dup idem show ?thesis by blast
qed

theorem parse_slash_invariant_witness:
  "parseBucketAndKey ''//bad//path/'' = (Some ''bad'', Some ''path'')
   \<and> parseBucketAndKey ''/bad/path'' = (Some ''bad'', Some ''path'')"
proof -
  have parsed: "parseBucketAndKey ''//bad//path/'' = (Some ''bad'', Some ''path'')"
    by (simp add: parse_segments segments_def)
  from parse_slash_invariant [of 0 "''//bad//path/''" "[]" "[]" "''bad''" "''path''"] parsed
  show ?thesis by simp
qed

section \<open>Properties of the byte formatter\<close>

subsection \<open>Suffixes\<close>

lemma endsWith_append: "endsWith (a @ t) t"
  by (simp add: endsWith_def)

lemma endsWith_last: "endsWith s t \<Longrightarrow> t \<noteq> [] \<Longrightarrow> last s = last t"
  unfolding endsWith_def
  by (metis append_take_drop_id last_appendR)

subsection \<open>The unit index and the digits\<close>

lemma floor_log_eq:
  assumes "1024 ^ i \<le> b" "b < 1024 ^ Suc i"
  shows "floor_log b 1024 = i"
proof -
  have "Suc i \<le> floorlog 1024 b" using floorlog_ge_SucI [OF assms(1)] by simp
  moreover have "floorlog 1024 b \<le> Suc i" using floorlog_leI [OF assms(2)] by simp
  ultimately show ?thesis by (simp add: floor_log_def)
qed

lemma floor_log_ge:
  assumes "1024 ^ i \<le> b"
  shows "i \<le> floor_log b 1024"
  using floorlog_ge_SucI [OF assms] by (simp add: floor_log_def)

lemma floor_log_less:
  assumes "b < 1024 ^ Suc i"
  shows "floor_log b 1024 \<le> i"
  using floorlog_leI [OF assms] by (simp add: floor_log_def)

lemma floor_log_ln:
  assumes "0 < b" "1 < k"
  shows "int (floor_log b k) = \<lfloor>ln (real b) / ln (real k)\<rfloor>"
proof -
  have "1 \<le> real b" using assms by simp
  then have "0 \<le> log (real k) (real b)"
    using assms by (simp add: zero_le_log_cancel_iff)
  then have "0 \<le> \<lfloor>log (real k) (real b)\<rfloor>" by simp
  then show ?thesis
    using assms by (simp add: floor_log_def floorlog_def log_def)
qed

lemma digit_simps:
  "digit 0 = CHR ''0''" "digit 1 = CHR ''1''" "digit 2 = CHR ''2''" "digit 3 = CHR ''3''"
  "digit 4 = CHR ''4''" "digit 5 = CHR ''5''" "digit 6 = CHR ''6''" "digit 7 = CHR ''7''"
  "digit 8 = CHR ''8''" "digit 9 = CHR ''9''" "digit (Suc 0) = CHR ''1''"
  by (simp_all add: digit_def)

lemma show_nat_small: "n < 10 \<Longrightarrow> show_nat n = [digit n]"
  by (simp add: show_nat.simps)

lemma Math_round_error: "\<bar>real_of_int (Math_round (x * 100)) / 100 - x\<bar> \<le> 1 / 200"
  unfolding Math_round_def by linarith

lemma formatBytes_unit:
  assumes "1024 ^ i \<le> bytes" "bytes < 1024 ^ Suc i"
  shows "formatBytes bytes =
     number_to_string (real_of_int (Math_round (real bytes / 1024 ^ i * 100)) / 100)
       @ '' '' @ index_to_string [''B'', ''KB'', ''MB'', ''GB''] i"
proof -
  have "0 < bytes" using assms(1) by (cases "bytes = 0") simp_all
  then show ?thesis
    using floor_log_eq [OF assms] by (simp add: formatBytes_def)
qed

lemmas number_evals = Math_round_def number_to_string_def index_to_string_def show_nat_small digit_simps

text \<open>
  C8. The formatter gives \<open>0 B\<close> for 0, \<open>1 KB\<close> for 1024 and \<open>1.5 KB\<close> for 1536. In
  general it special-cases 0, and for a size in the range of the unit of index \<open>i\<close>
  (from \<open>1024^i\<close> up to, not including, \<open>1024^(i+1)\<close>, with \<open>i\<close> one of the four
  units B, KB, MB, GB) it prints the size divided by \<open>1024^i\<close>, rounded to the nearest
  hundredth, then a space and the unit; the rounded number is within half a hundredth of
  the number it rounds.
\<close>

theorem formatBytes_examples_and_shape:
  "formatBytes 0 = ''0 B''
   \<and> formatBytes 1024 = ''1 KB''
   \<and> formatBytes 1536 = ''1.5 KB''
   \<and> (i < 4 \<and> 1024 ^ i \<le> bytes \<and> bytes < 1024 ^ Suc i \<longrightarrow>
        formatBytes bytes =
          number_to_string (real_of_int (Math_round (real bytes / 1024 ^ i * 100)) / 100)
            @ '' '' @ [''B'', ''KB'', ''MB'', ''GB''] ! i)
   \<and> \<bar>real_of_int (Math_round (x * 100)) / 100 - x\<bar> \<le> 1 / 200"
proof -
  have zero: "formatBytes 0 = ''0 B''"
    by (simp add: formatBytes_def)
  have kb: "formatBytes 1024 = ''1 KB''"
    using formatBytes_unit [of 1 1024] by (simp add: number_evals)
  have kb15: "formatBytes 1536 = ''1.5 KB''"
    using formatBytes_unit [of 1 1536] by (simp add: number_evals)
  have shape: "formatBytes bytes =
      number_to_string (real_of_int (Math_round (real bytes / 1024 ^ i * 100)) / 100)
        @ '' '' @ [''B'', ''KB'', ''MB'', ''GB''] ! i"
    if "i < 4" "1024 ^ i \<le> bytes" "bytes < 1024 ^ Suc i"
    using formatBytes_unit [OF that(2,3)] that(1) by (simp add: index_to_string_def)
  from zero kb kb15 shape Math_round_error show ?thesis by blast
qed

theorem formatBytes_examples_and_shape_witness:
  "formatBytes 2560 = ''2.5 KB'' \<and> formatBytes 1023 = ''1023 B''"
proof -
  have s1023: "show_nat 1023 = ''1023''"
    by (simp add: show_nat.simps [of 1023] show_nat.simps [of 102] show_nat.simps [of 10] show_nat_small digit_simps)
  show ?thesis
  using formatBytes_examples_and_shape [of 1 2560] formatBytes_examples_and_shape [of 0 1023]
  by (simp add: number_evals s1023)
qed

lemma valid_unit_range:
  assumes "bytes = 0 \<or> (1 \<le> bytes \<and> bytes < 1024 ^ 4)"
  shows "\<exists>u\<in>set [''B'', ''KB'', ''MB'', ''GB'']. endsWith (formatBytes bytes) ('' '' @ u)"
proof (cases "bytes = 0")
  case True
  then show ?thesis by (simp add: formatBytes_def endsWith_def)
next
  case False
  with assms have lt: "bytes < 1024 ^ Suc 3" by simp
  define i where "i = floor_log bytes 1024"
  have "i \<le> 3" unfolding i_def using lt by (rule floor_log_less)
  then have "index_to_string [''B'', ''KB'', ''MB'', ''GB''] i \<in> set [''B'', ''KB'', ''MB'', ''GB'']"
    by (auto simp: index_to_string_def numeral_eq_Suc less_Suc_eq le_Suc_eq)
  moreover have "endsWith (formatBytes bytes) ('' '' @ index_to_string [''B'', ''KB'', ''MB'', ''GB''] i)"
    using False endsWith_append [of _ "'' '' @ index_to_string [''B'', ''KB'', ''MB'', ''GB''] i"]
    by (simp add: formatBytes_def i_def Let_def)
  ultimately show ?thesis by blast
qed

lemma oversize_undefined:
  assumes "1024 ^ 4 \<le> bytes"
  shows "4 \<le> floor_log bytes 1024"
    and "\<exists>n. formatBytes bytes = n @ '' undefined''"
proof -
  show ge: "4 \<le> floor_log bytes 1024" using assms by (rule floor_log_ge)
  have "0 < bytes" using assms by (cases "bytes = 0") simp_all
  then show "\<exists>n. formatBytes bytes = n @ '' undefined''"
    using ge by (simp add: formatBytes_def Let_def index_to_string_def)
qed

lemma undefined_no_unit:
  assumes "u \<in> set [''B'', ''KB'', ''MB'', ''GB'']"
  shows "\<not> endsWith (n @ '' undefined'') u"
proof
  assume "endsWith (n @ '' undefined'') u"
  moreover have "u \<noteq> []" using assms by auto
  ultimately have "last (n @ '' undefined'') = last u" by (rule endsWith_last)
  then show False using assms by auto
qed

text \<open>
  C10. The formatter ends its result in one of the units B, KB, MB, GB for the size 0 and
  for the sizes from 1 up to, not including, \<open>1024^4\<close>, and only for them: for every
  size of at least \<open>1024^4\<close> the unit index (the floor of the quotient of the
  logarithms) is 4 or more, past the end of the four units, the result ends in the text
  \<open>undefined\<close> and in none of the units, and the row of such a file in a listing page
  shows that text in its size cell.
\<close>

theorem formatBytes_unit_range:
  "(bytes = 0 \<or> (1 \<le> bytes \<and> bytes < 1024 ^ 4) \<longrightarrow>
      (\<exists>u\<in>set [''B'', ''KB'', ''MB'', ''GB'']. endsWith (formatBytes bytes) ('' '' @ u)))
   \<and> (1024 ^ 4 \<le> bytes \<longrightarrow>
        4 \<le> floor_log bytes 1024
        \<and> 4 \<le> \<lfloor>ln (real bytes) / ln 1024\<rfloor>
        \<and> endsWith (formatBytes bytes) '' undefined''
        \<and> (\<forall>u\<in>set [''B'', ''KB'', ''MB'', ''GB'']. \<not> endsWith (formatBytes bytes) u)
        \<and> (Size file = bytes \<and> Boolean (drop (length prefix) (Key file)) \<longrightarrow>
             (\<exists>pre n. file_rows bucket prefix [file] = [pre @ ''<td>'' @ n @ '' undefined</td></tr>''])))"
proof -
  have big: "4 \<le> floor_log bytes 1024
        \<and> 4 \<le> \<lfloor>ln (real bytes) / ln 1024\<rfloor>
        \<and> endsWith (formatBytes bytes) '' undefined''
        \<and> (\<forall>u\<in>set [''B'', ''KB'', ''MB'', ''GB'']. \<not> endsWith (formatBytes bytes) u)
        \<and> (Size file = bytes \<and> Boolean (drop (length prefix) (Key file)) \<longrightarrow>
             (\<exists>pre n. file_rows bucket prefix [file] = [pre @ ''<td>'' @ n @ '' undefined</td></tr>'']))"
    if big: "1024 ^ 4 \<le> bytes"
  proof -
    from oversize_undefined [OF big] obtain n
      where ge: "4 \<le> floor_log bytes 1024" and fmt: "formatBytes bytes = n @ '' undefined''"
      by blast
    have "0 < bytes" using big by (cases "bytes = 0") simp_all
    then have eq: "\<lfloor>ln (real bytes) / ln 1024\<rfloor> = int (floor_log bytes 1024)"
      using floor_log_ln [of bytes 1024] by simp
    have ln: "4 \<le> \<lfloor>ln (real bytes) / ln 1024\<rfloor>"
      unfolding eq using ge by simp
    have e: "endsWith (formatBytes bytes) '' undefined''"
      unfolding fmt by (rule endsWith_append)
    have nounit: "\<forall>u\<in>set [''B'', ''KB'', ''MB'', ''GB'']. \<not> endsWith (formatBytes bytes) u"
      unfolding fmt using undefined_no_unit by blast
    have row: "\<exists>pre m. file_rows bucket prefix [file] = [pre @ ''<td>'' @ m @ '' undefined</td></tr>'']"
      if "Size file = bytes" "Boolean (drop (length prefix) (Key file))"
    proof -
      have "file_rows bucket prefix [file] =
          [(''<tr><td><a href=\"'' @ (''/'' @ bucket @ ''/'' @ Key file) @ ''\">'' @ file_icon @ '' ''
             @ drop (length prefix) (Key file) @ ''</a></td>'') @ ''<td>'' @ n @ '' undefined</td></tr>'']"
        using that fmt by (simp add: Let_def)
      then show ?thesis by blast
    qed
    from ge ln e nounit row show ?thesis by blast
  qed
  from valid_unit_range big show ?thesis by blast
qed

theorem formatBytes_unit_range_witness:
  "endsWith (formatBytes 1048576) '' MB''
   \<and> endsWith (formatBytes (1024 ^ 4)) '' undefined''
   \<and> (\<exists>pre n. file_rows ''b'' ''dir/'' [\<lparr>Key = ''dir/big.bin'', Size = 1024 ^ 4\<rparr>]
                 = [pre @ ''<td>'' @ n @ '' undefined</td></tr>''])"
proof -
  have "formatBytes 1048576 = ''1 MB''"
    using formatBytes_unit [of 2 1048576] by (simp add: number_evals)
  then have u: "endsWith (formatBytes 1048576) ('' '' @ u) = (u = ''MB'')"
    if "u \<in> set [''B'', ''KB'', ''MB'', ''GB'']" for u
    using that by (auto simp: endsWith_def)
  from formatBytes_unit_range [of 1048576] u
  have 1: "endsWith (formatBytes 1048576) '' MB''" by auto
  from formatBytes_unit_range [of "1024 ^ 4" "\<lparr>Key = ''dir/big.bin'', Size = 1024 ^ 4\<rparr>" "''dir/''" "''b''"]
  show ?thesis using 1 by (simp add: Boolean_def)
qed


section \<open>Properties of the routes\<close>

subsection \<open>The shape of a parsed key\<close>

lemma parse_bucket_nonempty:
  assumes "parseBucketAndKey p = (Some b, Some k)"
  shows "b \<noteq> []"
proof -
  from parse_SomeD [OF assms] obtain rest where "segments p = b # rest" by blast
  then have "b \<in> set (segments p)" by simp
  then show ?thesis by (rule segments_nonempty)
qed

lemma endsWith_slashD: "endsWith s ''/'' \<Longrightarrow> \<exists>u. s = u @ ''/''"
  unfolding endsWith_def by (metis append_take_drop_id)

lemma js_split_join:
  "\<forall>s\<in>set segs. CHR ''/'' \<notin> set s \<Longrightarrow> segs \<noteq> [] \<Longrightarrow>
     js_split (CHR ''/'') (js_join ''/'' segs) = segs"
proof (induction "''/''" segs rule: js_join.induct)
  case 1
  then show ?case by simp
next
  case (2 x)
  then show ?case by (simp add: js_split_no_sep)
next
  case (3 x y ys)
  then show ?case by (simp add: js_split_append js_split_no_sep)
qed

lemma key_pieces:
  assumes "parseBucketAndKey p = (Some b, Some k)" "k \<noteq> []"
  shows "[] \<notin> set (js_split (CHR ''/'') k)"
proof -
  from parse_SomeD [OF assms(1)] obtain rest
    where segs: "segments p = b # rest" and k: "k = js_join ''/'' rest" by blast
  have ne: "\<forall>s\<in>set rest. s \<noteq> []"
    using segs segments_nonempty [of _ p] by simp
  have free: "\<forall>s\<in>set rest. CHR ''/'' \<notin> set s"
    using segs segments_slash_free [of _ p] by simp
  have "rest \<noteq> []" using assms(2) k by auto
  with free have "js_split (CHR ''/'') k = rest"
    unfolding k by (rule js_split_join)
  with ne show ?thesis by auto
qed

lemma key_no_trailing_slash:
  assumes "parseBucketAndKey p = (Some b, Some k)"
  shows "\<not> endsWith k ''/''"
proof
  assume "endsWith k ''/''"
  then obtain u where u: "k = u @ ''/''" using endsWith_slashD by blast
  then have "k \<noteq> []" by simp
  from key_pieces [OF assms this] show False
    unfolding u using js_split_append [of "CHR ''/''" u "[]"] by simp
qed

lemma key_no_leading_slash:
  assumes "parseBucketAndKey p = (Some b, Some k)"
  shows "k \<noteq> CHR ''/'' # v"
proof
  assume v: "k = CHR ''/'' # v"
  then have "k \<noteq> []" by simp
  from key_pieces [OF assms this] show False
    unfolding v by simp
qed

lemma key_no_double_slash:
  assumes "parseBucketAndKey p = (Some b, Some k)"
  shows "k \<noteq> u @ ''//'' @ v"
proof
  assume uv: "k = u @ ''//'' @ v"
  then have "k \<noteq> []" by simp
  from key_pieces [OF assms this] show False
    unfolding uv using js_split_append [of "CHR ''/''" u "CHR ''/'' # v"] by simp
qed


subsection \<open>The two branches of the catch-all route\<close>

lemmas response_defs = res_status_def res_setHeader_def res_send_def console_error_def s3_send_def fresh_def


lemma serve_object:
  assumes "parseBucketAndKey reqPath = (Some b, Some k)" "k \<noteq> []" "\<not> endsWith k ''/''"
  shows "serve w reqPath e =
     (case fetch_file w b k e of
        Inr ok \<Rightarrow> Inr ok
      | Inl (err, e1) \<Rightarrow>
          if is_not_found err then try_as_directory w b k reqPath e1 else Inl (err, e1))"
  using assms parse_bucket_nonempty [OF assms(1)]
  by (auto simp: serve_def Boolean_def or_string_def split: sum.splits prod.splits)


lemmas demo_evals = demo_world_def not_found_def access_denied_def is_not_found_def
  parse_segments segments_def endsWith_def or_nil_def


lemma fetch_file_calls:
  "fetch_file w b k e = Inl (err, e1) \<Longrightarrow> \<exists>rest. calls e1 = calls e @ HeadObject b k # rest"
  "fetch_file w b k e = Inr (u, e1) \<Longrightarrow> \<exists>rest. calls e1 = calls e @ HeadObject b k # rest"
  by (auto simp: fetch_file_def Let_def response_defs split: sum.splits if_splits)

lemma try_as_directory_calls:
  "try_as_directory w b k p e = Inl (err, e1) \<Longrightarrow> \<exists>rest. calls e1 = calls e @ rest"
  "try_as_directory w b k p e = Inr (u, e1) \<Longrightarrow> \<exists>rest. calls e1 = calls e @ rest"
  by (auto simp: try_as_directory_def listS3Objects_def Let_def response_defs
      split: sum.splits if_splits prod.splits)


subsection \<open>Directory requests\<close>





subsection \<open>Fallback from object to directory\<close>

text \<open>
  C1. For a request whose parsed bucket is present and whose parsed key is non-empty and
  does not end with a slash, when the metadata check signals not-found, the handler lists
  the objects under the key with a slash appended. When that listing returns at least one
  folder or file, the answer is 200 with the listing page for that prefix, rendered
  against the request path with a slash at its end (appended unless the path already ends
  with one); when it returns neither, the answer is 404 with the body \<open>Not found\<close>.
\<close>

theorem directory_fallback:
  assumes "parseBucketAndKey reqPath = (Some b, Some k)"
    and "k \<noteq> []" and "\<not> endsWith k ''/''"
    and "HeadObjectCommand w b k = Inl err" and "is_not_found err"
    and "ListObjectsV2Command w b (k @ ''/'') = Inr result"
  shows "calls (get_any w reqPath) = [HeadObject b k, ListObjectsV2 b (k @ ''/'')]
    \<and> (or_nil (CommonPrefixes result) \<noteq> [] \<or> or_nil (Contents result) \<noteq> [] \<longrightarrow>
          statusCode (get_any w reqPath) = 200
          \<and> sent (get_any w reqPath) =
              Some (generateIndexHtml b (k @ ''/'') (or_nil (CommonPrefixes result))
                      (or_nil (Contents result))
                      (if endsWith reqPath ''/'' then reqPath else reqPath @ ''/''))
          \<and> headers (get_any w reqPath) = [''Content-Type'' \<mapsto> ''text/html; charset=utf-8''])
    \<and> (or_nil (CommonPrefixes result) = [] \<and> or_nil (Contents result) = [] \<longrightarrow>
          statusCode (get_any w reqPath) = 404
          \<and> sent (get_any w reqPath) = Some ''Not found'')
    \<and> console (get_any w reqPath) = []"
  using assms(2-6)
  by (simp add: get_any_def serve_object [OF assms(1-3)] fetch_file_def try_as_directory_def
      listS3Objects_def response_defs Let_def)

theorem directory_fallback_witness:
  "statusCode (get_any demo_world ''/b/dir'') = 200
   \<and> sent (get_any demo_world ''/b/dir'') =
       Some (generateIndexHtml ''b'' ''dir/'' [] [\<lparr>Key = ''dir/real-file.txt'', Size = 1536\<rparr>] ''/b/dir/'')
   \<and> statusCode (get_any demo_world ''/b/missing-key'') = 404
   \<and> sent (get_any demo_world ''/b/missing-key'') = Some ''Not found''"
  using directory_fallback [where reqPath = "''/b/dir''" and b = "''b''" and k = "''dir''"
      and w = demo_world and err = not_found
      and result = "\<lparr>CommonPrefixes = None, Contents = Some [\<lparr>Key = ''dir/real-file.txt'', Size = 1536\<rparr>]\<rparr>"]
    directory_fallback [where reqPath = "''/b/missing-key''" and b = "''b''" and k = "''missing-key''"
      and w = demo_world and err = not_found
      and result = "\<lparr>CommonPrefixes = None, Contents = None\<rparr>"]
  by (simp add: demo_evals)


subsection \<open>Object responses\<close>

text \<open>
  C4, when the byte fetch is refused. The metadata check of \<open>/b/archived.bin\<close>
  succeeds in the archive world and the fetch of the bytes is rejected with status 403:
  the answer is 500 with the body \<open>Error fetching from S3\<close>, not 200, and the error is
  written to the console. The headers set from the metadata stay on that answer.
\<close>

theorem metadata_success_not_always_200:
  "parseBucketAndKey ''/b/archived.bin'' = (Some ''b'', Some ''archived.bin'')
   \<and> HeadObjectCommand archive_world ''b'' ''archived.bin''
       = Inr \<lparr>ContentType = Some ''application/zip'', CacheControl = None, ETag = Some ''e1''\<rparr>
   \<and> GetObjectCommand archive_world ''b'' ''archived.bin'' = Inl invalid_object_state
   \<and> statusCode (get_any archive_world ''/b/archived.bin'') = 500
   \<and> statusCode (get_any archive_world ''/b/archived.bin'') \<noteq> 200
   \<and> sent (get_any archive_world ''/b/archived.bin'') = Some ''Error fetching from S3''
   \<and> headers (get_any archive_world ''/b/archived.bin'') ''Content-Type'' = Some ''application/zip''
   \<and> console (get_any archive_world ''/b/archived.bin'') = [invalid_object_state]
   \<and> calls (get_any archive_world ''/b/archived.bin'')
       = [HeadObject ''b'' ''archived.bin'', GetObject ''b'' ''archived.bin'']"
  by (simp add: archive_world_def invalid_object_state_def is_not_found_def parse_segments
      segments_def endsWith_def get_any_def serve_def fetch_file_def Boolean_def or_string_def
      response_defs)

text \<open>
  C4, with the byte fetch succeeding. For a request resolved as an object whose metadata
  check succeeds and whose bytes are then fetched, the answer is 200 with the bytes as
  the body. Its Content-Type is the content type of the metadata when that is present,
  else the type that the extension table gives for the key, else
  \<open>application/octet-stream\<close>. Cache-Control and ETag are set exactly when the metadata
  has them, with the metadata's values, and no other header is set. A field counts as
  present when it holds a non-empty string, which is what the handler's tests check.
\<close>

theorem object_response_headers:
  assumes "parseBucketAndKey reqPath = (Some b, Some k)"
    and "k \<noteq> []" and "\<not> endsWith k ''/''"
    and "HeadObjectCommand w b k = Inr head"
    and "GetObjectCommand w b k = Inr bytes"
  shows "statusCode (get_any w reqPath) = 200
    \<and> sent (get_any w reqPath) = Some bytes
    \<and> (\<forall>t. ContentType head = Some t \<and> t \<noteq> [] \<longrightarrow>
          headers (get_any w reqPath) ''Content-Type'' = Some t)
    \<and> (\<not> truthy (ContentType head) \<longrightarrow>
          (\<forall>t. mime_lookup w k = Some t \<and> t \<noteq> [] \<longrightarrow>
             headers (get_any w reqPath) ''Content-Type'' = Some t)
          \<and> (\<not> truthy (mime_lookup w k) \<longrightarrow>
               headers (get_any w reqPath) ''Content-Type'' = Some ''application/octet-stream''))
    \<and> headers (get_any w reqPath) ''Cache-Control''
        = (if truthy (CacheControl head) then CacheControl head else None)
    \<and> headers (get_any w reqPath) ''ETag'' = (if truthy (ETag head) then ETag head else None)
    \<and> dom (headers (get_any w reqPath)) \<subseteq> {''Content-Type'', ''Cache-Control'', ''ETag''}
    \<and> console (get_any w reqPath) = []
    \<and> calls (get_any w reqPath) = [HeadObject b k, GetObject b k]"
proof -
  have truthy_cases: "truthy v \<Longrightarrow> \<exists>t. v = Some t \<and> t \<noteq> [] \<and> or_else v d = t" for v d
    by (cases v) (simp_all add: Boolean_def or_string_def)
  have falsy: "\<not> truthy v \<Longrightarrow> or_else v d = d" for v d
    by (cases v) (simp_all add: Boolean_def or_string_def)
  define e where "e = get_any w reqPath"
  have e: "e = res_send bytes (s3_send (GetObject b k)
      ((if truthy (ETag head) then res_setHeader ''ETag'' (or_else (ETag head) []) else id)
      ((if truthy (CacheControl head) then res_setHeader ''Cache-Control'' (or_else (CacheControl head) []) else id)
      (res_setHeader ''Content-Type''
         (or_else (ContentType head) (or_else (mime_lookup w k) ''application/octet-stream''))
         (s3_send (HeadObject b k) fresh)))))"
    using assms(4,5)
    by (simp add: e_def get_any_def serve_object [OF assms(1-3)] fetch_file_def Let_def)
  have 1: "statusCode e = 200" "sent e = Some bytes" "console e = []"
    "calls e = [HeadObject b k, GetObject b k]"
    by (simp_all add: e response_defs)
  have ct: "headers e ''Content-Type''
      = Some (or_else (ContentType head) (or_else (mime_lookup w k) ''application/octet-stream''))"
    by (simp add: e response_defs)
  have cc: "headers e ''Cache-Control'' = (if truthy (CacheControl head) then CacheControl head else None)"
    using truthy_cases [of "CacheControl head" "[]"] by (auto simp: e response_defs)
  have et: "headers e ''ETag'' = (if truthy (ETag head) then ETag head else None)"
    using truthy_cases [of "ETag head" "[]"] by (auto simp: e response_defs)
  have dm: "dom (headers e) \<subseteq> {''Content-Type'', ''Cache-Control'', ''ETag''}"
    by (auto simp: e response_defs split: if_splits)
  have ct1: "\<forall>t. ContentType head = Some t \<and> t \<noteq> [] \<longrightarrow> headers e ''Content-Type'' = Some t"
    by (auto simp: ct or_string_def Boolean_def)
  have ct2: "\<not> truthy (ContentType head) \<longrightarrow>
      (\<forall>t. mime_lookup w k = Some t \<and> t \<noteq> [] \<longrightarrow> headers e ''Content-Type'' = Some t)
      \<and> (\<not> truthy (mime_lookup w k) \<longrightarrow> headers e ''Content-Type'' = Some ''application/octet-stream'')"
    by (auto simp: ct falsy or_string_def Boolean_def)
  from 1 ct1 ct2 cc et dm show ?thesis unfolding e_def by blast
qed

theorem object_response_headers_witness:
  "statusCode (get_any demo_world ''/b/dir/real-file.txt'') = 200
   \<and> sent (get_any demo_world ''/b/dir/real-file.txt'') = Some ''hello''
   \<and> headers (get_any demo_world ''/b/dir/real-file.txt'') ''Content-Type'' = Some ''text/plain''
   \<and> headers (get_any demo_world ''/b/dir/real-file.txt'') ''Cache-Control'' = Some ''max-age=60''
   \<and> headers (get_any demo_world ''/b/dir/real-file.txt'') ''ETag'' = None"
  using object_response_headers [where reqPath = "''/b/dir/real-file.txt''" and b = "''b''"
      and k = "''dir/real-file.txt''" and w = demo_world and bytes = "''hello''"
      and head = "\<lparr>ContentType = None, CacheControl = Some ''max-age=60'', ETag = None\<rparr>"]
  by (simp add: demo_evals Boolean_def)

subsection \<open>Failures of the object fetch\<close>

text \<open>
  C5, the text of the body. A metadata check refused with status 403 is answered with 500
  and the body \<open>Error fetching from S3\<close>, not \<open>Error fetching from object storage\<close>.
\<close>

theorem fetch_failure_not_object_storage_text:
  "parseBucketAndKey ''/b/secret'' = (Some ''b'', Some ''secret'')
   \<and> HeadObjectCommand demo_world ''b'' ''secret'' = Inl access_denied
   \<and> httpStatusCode access_denied = Some 403
   \<and> \<not> is_not_found access_denied
   \<and> statusCode (get_any demo_world ''/b/secret'') = 500
   \<and> sent (get_any demo_world ''/b/secret'') = Some ''Error fetching from S3''
   \<and> sent (get_any demo_world ''/b/secret'') \<noteq> Some ''Error fetching from object storage''"
  by (simp add: demo_evals get_any_def serve_def fetch_file_def Boolean_def or_string_def
      response_defs)


text \<open>
  C5, with the body the handler sends. For a request resolved as an object, a failure of
  the metadata check or of the byte fetch that is not a not-found (status 404, or an
  error named \<open>NotFound\<close> or \<open>NoSuchKey\<close>) is answered with 500 and the body
  \<open>Error fetching from S3\<close>; the error is written to the console, and each command was
  sent once, with no second attempt.
\<close>

theorem fetch_failure_500:
  assumes "parseBucketAndKey reqPath = (Some b, Some k)"
    and "k \<noteq> []" and "\<not> endsWith k ''/''"
    and "\<not> is_not_found err"
  shows "(HeadObjectCommand w b k = Inl err \<longrightarrow>
            get_any w reqPath =
              \<lparr>statusCode = 500, headers = Map.empty, sent = Some ''Error fetching from S3'',
               console = [err], calls = [HeadObject b k]\<rparr>)
    \<and> (HeadObjectCommand w b k = Inr head \<and> GetObjectCommand w b k = Inl err \<longrightarrow>
            statusCode (get_any w reqPath) = 500
            \<and> sent (get_any w reqPath) = Some ''Error fetching from S3''
            \<and> console (get_any w reqPath) = [err]
            \<and> calls (get_any w reqPath) = [HeadObject b k, GetObject b k])"
  using assms(2-4)
  by (simp add: get_any_def serve_object [OF assms(1-3)] fetch_file_def Let_def response_defs)

theorem fetch_failure_500_witness:
  "get_any demo_world ''/b/secret'' =
     \<lparr>statusCode = 500, headers = Map.empty, sent = Some ''Error fetching from S3'',
      console = [access_denied], calls = [HeadObject ''b'' ''secret'']\<rparr>"
  using fetch_failure_500 [where reqPath = "''/b/secret''" and b = "''b''" and k = "''secret''"
      and w = demo_world and err = access_denied]
  by (simp add: demo_evals)

subsection \<open>The root route\<close>

lemma buckets_page_1_end: "\<exists>pre. buckets_page_1 = pre @ ''<tbody>\<newline>      ''"
proof -
  have "endsWith buckets_page_1 ''<tbody>\<newline>      ''"
    by (simp add: buckets_page_1_def template_lines_def endsWith_def)
  then show ?thesis
    unfolding endsWith_def by (metis append_take_drop_id)
qed

lemma buckets_page_2_start: "\<exists>post. buckets_page_2 = ''\<newline>    </tbody>'' @ post"
  by (simp add: buckets_page_2_def template_lines_def)

text \<open>
  C6. A request for the root path lists the buckets and answers 200 with the buckets page,
  one row per bucket in the order returned; with no bucket the answer is still 200 and the
  table body of the page has no row; when the list-buckets call fails the answer is 500
  with the body \<open>Error listing buckets\<close>, and the error is written to the console.
\<close>

theorem root_lists_buckets:
  "(ListBucketsCommand w = Inr result \<longrightarrow>
      get_root w =
        \<lparr>statusCode = 200,
         headers = [''Content-Type'' \<mapsto> ''text/html; charset=utf-8''],
         sent = Some (buckets_page_1
                      @ js_join ''\<newline>      '' (map bucket_row (or_nil (Buckets result)))
                      @ buckets_page_2),
         console = [],
         calls = [ListBuckets]\<rparr>
      \<and> (or_nil (Buckets result) = [] \<longrightarrow>
           statusCode (get_root w) = 200
           \<and> (\<exists>pre post. sent (get_root w)
                 = Some (pre @ ''<tbody>\<newline>      \<newline>    </tbody>'' @ post))))
   \<and> (ListBucketsCommand w = Inl err \<longrightarrow>
        statusCode (get_root w) = 500
        \<and> sent (get_root w) = Some ''Error listing buckets''
        \<and> console (get_root w) = [err]
        \<and> calls (get_root w) = [ListBuckets])"
proof -
  have ok: "get_root w =
        \<lparr>statusCode = 200,
         headers = [''Content-Type'' \<mapsto> ''text/html; charset=utf-8''],
         sent = Some (buckets_page_1
                      @ js_join ''\<newline>      '' (map bucket_row (or_nil (Buckets result)))
                      @ buckets_page_2),
         console = [],
         calls = [ListBuckets]\<rparr>"
    if "ListBucketsCommand w = Inr result"
    using that by (simp add: get_root_def response_defs)
  have none: "\<exists>pre post. sent (get_root w) = Some (pre @ ''<tbody>\<newline>      \<newline>    </tbody>'' @ post)"
    if "ListBucketsCommand w = Inr result" "or_nil (Buckets result) = []"
  proof -
    obtain pre where pre: "buckets_page_1 = pre @ ''<tbody>\<newline>      ''"
      using buckets_page_1_end by blast
    obtain post where post: "buckets_page_2 = ''\<newline>    </tbody>'' @ post"
      using buckets_page_2_start by blast
    have "sent (get_root w) = Some (buckets_page_1 @ buckets_page_2)"
      using ok [OF that(1)] that(2) by simp
    then have "sent (get_root w) = Some (pre @ ''<tbody>\<newline>      \<newline>    </tbody>'' @ post)"
      unfolding pre post by simp
    then show ?thesis by blast
  qed
  have failed: "statusCode (get_root w) = 500 \<and> sent (get_root w) = Some ''Error listing buckets''
      \<and> console (get_root w) = [err] \<and> calls (get_root w) = [ListBuckets]"
    if "ListBucketsCommand w = Inl err"
    using that by (simp add: get_root_def response_defs)
  from ok none failed show ?thesis by simp
qed

theorem root_lists_buckets_witness:
  "statusCode (get_root demo_world) = 200
   \<and> sent (get_root demo_world) =
       Some (buckets_page_1
             @ (''<tr><td><a href=\"/b\">'' @ bucket_icon @ '' b</a></td><td>2024-01-02</td></tr>'')
             @ buckets_page_2)
   \<and> statusCode (get_root (demo_world\<lparr>ListBucketsCommand := Inr \<lparr>Buckets = Some []\<rparr>\<rparr>)) = 200
   \<and> sent (get_root (demo_world\<lparr>ListBucketsCommand := Inr \<lparr>Buckets = Some []\<rparr>\<rparr>))
       = Some (buckets_page_1 @ buckets_page_2)
   \<and> statusCode (get_root (demo_world\<lparr>ListBucketsCommand := Inl access_denied\<rparr>)) = 500
   \<and> sent (get_root (demo_world\<lparr>ListBucketsCommand := Inl access_denied\<rparr>))
       = Some ''Error listing buckets''"
  using root_lists_buckets [where w = demo_world
      and result = "\<lparr>Buckets = Some [\<lparr>Name = ''b'', CreationDate = Some ''2024-01-02T03:04:05.000Z''\<rparr>]\<rparr>"]
    root_lists_buckets [where w = "demo_world\<lparr>ListBucketsCommand := Inr \<lparr>Buckets = Some []\<rparr>\<rparr>"
      and result = "\<lparr>Buckets = Some []\<rparr>"]
    root_lists_buckets [where w = "demo_world\<lparr>ListBucketsCommand := Inl access_denied\<rparr>"
      and err = access_denied]
  by (simp add: demo_world_def or_nil_def bucket_row_def js_split_Cons del: js_split.simps(2))

subsection \<open>Trailing slashes are resolved object first\<close>

text \<open>
  C9. The key returned by the parser is a join by slashes of non-empty slash-free
  segments: it does not begin or end with a slash and has no two slashes in a row. So
  the directory test of the catch-all route (the key is empty or ends with a slash)
  holds exactly when the key is empty, and a request with a non-empty key, with or
  without a trailing slash in its path, begins with the metadata check on that key and
  goes on to the listing of the key with a slash appended when the check signals
  not-found.
\<close>

theorem key_shape_object_first:
  assumes "parseBucketAndKey reqPath = (Some b, Some k)"
  shows "(\<exists>segs. k = js_join ''/'' segs \<and> (\<forall>s\<in>set segs. s \<noteq> [] \<and> CHR ''/'' \<notin> set s))
    \<and> (\<forall>v. k \<noteq> CHR ''/'' # v)
    \<and> \<not> endsWith k ''/''
    \<and> (\<forall>u v. k \<noteq> u @ ''//'' @ v)
    \<and> ((\<not> truthy (Some k) \<or> endsWith k ''/'') = (k = []))
    \<and> (k \<noteq> [] \<longrightarrow>
         (\<exists>rest. calls (get_any w reqPath) = HeadObject b k # rest)
         \<and> (\<forall>err. HeadObjectCommand w b k = Inl err \<and> is_not_found err \<longrightarrow>
               calls (get_any w reqPath) = [HeadObject b k, ListObjectsV2 b (k @ ''/'')]))"
proof -
  from parse_SomeD [OF assms] obtain rest
    where segs: "segments reqPath = b # rest" and k: "k = js_join ''/'' rest" by blast
  have "\<forall>s\<in>set rest. s \<noteq> [] \<and> CHR ''/'' \<notin> set s"
    using segs segments_nonempty [of _ reqPath] segments_slash_free [of _ reqPath] by simp
  with k have shape: "\<exists>segs. k = js_join ''/'' segs \<and> (\<forall>s\<in>set segs. s \<noteq> [] \<and> CHR ''/'' \<notin> set s)"
    by blast
  have lead: "\<forall>v. k \<noteq> CHR ''/'' # v"
    using key_no_leading_slash [OF assms] by blast
  have trail: "\<not> endsWith k ''/''"
    using assms by (rule key_no_trailing_slash)
  have dbl: "\<forall>u v. k \<noteq> u @ ''//'' @ v"
    using key_no_double_slash [OF assms] by blast
  have cond: "(\<not> truthy (Some k) \<or> endsWith k ''/'') = (k = [])"
    using trail by (simp add: Boolean_def)
  note unfold = get_any_def fetch_file_def try_as_directory_def listS3Objects_def Let_def response_defs
  have first: "\<exists>rest. calls (get_any w reqPath) = HeadObject b k # rest" if "k \<noteq> []"
  proof (cases "fetch_file w b k fresh")
    case (Inr ok)
    obtain u e1 where ok: "ok = (u, e1)" by (cases ok)
    from Inr obtain rest where "calls e1 = HeadObject b k # rest"
      using fetch_file_calls(2) [of w b k fresh u e1] by (auto simp: ok fresh_def)
    with Inr show ?thesis
      by (simp add: get_any_def serve_object [OF assms that trail] ok)
  next
    case (Inl thrown)
    obtain err e1 where thrown: "thrown = (err, e1)" by (cases thrown)
    from Inl obtain rest where e1: "calls e1 = HeadObject b k # rest"
      using fetch_file_calls(1) [of w b k fresh err e1] by (auto simp: thrown fresh_def)
    show ?thesis
    proof (cases "is_not_found err")
      case False
      with Inl e1 show ?thesis
        by (simp add: get_any_def serve_object [OF assms that trail] thrown response_defs)
    next
      case True
      note fetch = \<open>fetch_file w b k fresh = Inl thrown\<close>
      show ?thesis
      proof (cases "try_as_directory w b k reqPath e1")
        case (Inl thrown')
        obtain err' e2 where thrown': "thrown' = (err', e2)" by (cases thrown')
        from Inl obtain rest' where "calls e2 = calls e1 @ rest'"
          using try_as_directory_calls(1) [of w b k reqPath e1 err' e2] by (auto simp: thrown')
        with Inl e1 True fetch show ?thesis
          by (simp add: get_any_def serve_object [OF assms that trail] thrown thrown' response_defs)
      next
        case (Inr ok)
        obtain u e2 where ok: "ok = (u, e2)" by (cases ok)
        from Inr obtain rest' where "calls e2 = calls e1 @ rest'"
          using try_as_directory_calls(2) [of w b k reqPath e1 u e2] by (auto simp: ok)
        with Inr e1 True fetch show ?thesis
          by (simp add: get_any_def serve_object [OF assms that trail] thrown ok)
      qed
    qed
  qed
  have fallback: "calls (get_any w reqPath) = [HeadObject b k, ListObjectsV2 b (k @ ''/'')]"
    if "k \<noteq> []" "HeadObjectCommand w b k = Inl err" "is_not_found err" for err
    using that(2,3) trail
    by (cases "ListObjectsV2Command w b (k @ ''/'')")
       (simp_all add: serve_object [OF assms that(1) trail] unfold)
  from shape lead trail dbl cond first fallback show ?thesis by blast
qed

theorem key_shape_object_first_witness:
  "parseBucketAndKey ''/b/dir/'' = (Some ''b'', Some ''dir'')
   \<and> calls (get_any demo_world ''/b/dir/'') = [HeadObject ''b'' ''dir'', ListObjectsV2 ''b'' ''dir/'']"
proof -
  have parsed: "parseBucketAndKey ''/b/dir/'' = (Some ''b'', Some ''dir'')"
    by (simp add: parse_segments segments_def)
  have "HeadObjectCommand demo_world ''b'' ''dir'' = Inl not_found \<and> is_not_found not_found"
    by (simp add: demo_evals)
  with key_shape_object_first [OF parsed, of demo_world] parsed show ?thesis
    by simp
qed

end
